theory Spec2Isabelle
  imports Main "HOL-Library.Word" "HOL-Library.Multiset"
begin

section \<open>The node runtime of gomavlib\<close>

text \<open>
  A shallow embedding of the node runtime (package gomavlib, the file that declares
  \<open>NodeConf\<close>, \<open>Node\<close>, \<open>NewNode\<close>, \<open>Close\<close> and the write primitives).
  Every function of that file is a HOL function of the same name on an explicit node
  state. What the calling goroutine does to objects outside the file (channels, channel
  accepters, the heartbeat task, the mutex, the Go channels) is appended, in program
  order, to a log kept in the state.
\<close>

subsection \<open>Constants for ip-based endpoints\<close>

text \<open>Go's \<open>time.Duration\<close> is a signed 64-bit count of nanoseconds.\<close>

type_synonym Duration = int

definition Nanosecond :: Duration where
  "Nanosecond = 1"

definition Microsecond :: Duration where
  "Microsecond = 1000 * Nanosecond"

definition Millisecond :: Duration where
  "Millisecond = 1000 * Microsecond"

definition Second :: Duration where
  "Second = 1000 * Millisecond"

definition netBufferSize :: int where
  "netBufferSize = 512"

definition netConnectTimeout :: Duration where
  "netConnectTimeout = 10 * Second"

definition netReconnectPeriod :: Duration where
  "netReconnectPeriod = 2 * Second"

definition netReadTimeout :: Duration where
  "netReadTimeout = 60 * Second"

definition netWriteTimeout :: Duration where
  "netWriteTimeout = 10 * Second"

subsection \<open>Version\<close>

text \<open>
  \<open>type Version int\<close> with \<open>V2 Version = iota\<close> followed by \<open>V1\<close>: the two constants
  are 0 and 1, in this order.
\<close>

type_synonym Version = int

definition V2 :: Version where
  "V2 = 0"

definition V1 :: Version where
  "V1 = 1"

subsection \<open>NodeConf\<close>

type_synonym byte = "8 word"

type_synonym error = string

type_synonym SignatureKey = "byte list"

text \<open>
  The dialect, the endpoints and their configurations are declared in other files of
  the package. Of a dialect the node runtime only asks whether it defines HEARTBEAT.
  An endpoint is an interface value: it may implement \<open>endpointChannelAccepter\<close>,
  \<open>endpointChannelSingle\<close> (which has \<open>Label()\<close>), both or neither. An endpoint
  configuration is an interface with the single method \<open>init()\<close>, which returns an
  endpoint or an error: the configuration is modelled by what its \<open>init()\<close> returns.
\<close>

datatype Dialect = MkDialect (definesHeartbeat: bool)

datatype Endpoint = MkEndpoint (isChannelAccepter: bool) (isChannelSingle: bool) (Label: string)

datatype EndpointConf = MkEndpointConf (init: "error + Endpoint")

text \<open>Pointer-typed fields are options: \<open>nil\<close> is \<open>None\<close>.\<close>

record NodeConf =
  Endpoints :: "EndpointConf list"
  Dialect :: "Dialect option"
  InSignatureKey :: "SignatureKey option"
  OutVersion :: Version
  OutSystemId :: byte
  OutComponentId :: byte
  OutSignatureKey :: "SignatureKey option"
  HeartbeatDisable :: bool
  HeartbeatPeriod :: Duration
  HeartbeatSystemType :: int

text \<open>The zero value of the struct, which a composite literal starts from.\<close>

definition NodeConf_zero :: NodeConf where
  "NodeConf_zero =
     \<lparr>Endpoints = [], Dialect = None, InSignatureKey = None, OutVersion = 0,
      OutSystemId = 0, OutComponentId = 0, OutSignatureKey = None,
      HeartbeatDisable = False, HeartbeatPeriod = 0, HeartbeatSystemType = 0\<rparr>"

subsection \<open>Node\<close>

text \<open>
  Channels, channel accepters and the heartbeat task are heap objects the node points
  to; a pointer is an address. The calls on them, and the operations on the mutex and
  on the Go channels, are the actions of the log. \<open>'w\<close> is the type of the items
  written (\<open>what interface{}\<close>: a message or a frame).
\<close>

type_synonym ptr = nat

datatype 'w action =
    MutexLock
  | MutexUnlock
  | Send ptr 'w
  | RecvWriteDone
  | NewChannel ptr string
  | NewChannelAccepter ptr
  | NewHeartbeat ptr
  | HeartbeatStart ptr
  | ChannelStart ptr
  | AccepterStart ptr
  | HeartbeatClose ptr
  | AccepterClose ptr
  | ChannelClose ptr
  | GoDrainEvents
  | WgWait
  | CloseEventChan

text \<open>
  The fields of \<open>Node\<close>. The two maps with empty values are sets of pointers, kept
  as lists without duplicates. \<open>channelsMutex\<close> is true while the mutex is held.
  \<open>eventChanClosed\<close> is the state of \<open>eventChan\<close>. \<open>writeChan\<close> holds, for every
  channel, the items sent on its write queue so far. \<open>writeDone\<close> counts the
  completion tokens the write tasks owe the node: one for every item sent on a write
  queue and not yet acknowledged. \<open>heap_next\<close> is the next free address and
  \<open>trace\<close> is the log.
\<close>

record 'w Node =
  conf :: NodeConf
  writeDone :: nat
  eventChanClosed :: bool
  channelAccepters :: "ptr list"
  channelsMutex :: bool
  channels :: "ptr list"
  nodeHeartbeat :: "ptr option"
  writeChan :: "ptr \<Rightarrow> 'w list"
  heap_next :: ptr
  trace :: "'w action list"

text \<open>
  A call returns, panics, or blocks for ever (the calling goroutine alone cannot make
  progress).
\<close>

datatype 'a ret = Return 'a | Panic string | Blocked

fun andThen :: "'a ret \<Rightarrow> ('a \<Rightarrow> 'b ret) \<Rightarrow> 'b ret" where
  "andThen (Return x) f = f x"
| "andThen (Panic msg) f = Panic msg"
| "andThen Blocked f = Blocked"

text \<open>
  Go iterates over a map in an unspecified order. The order is a parameter \<open>rng\<close> of
  every function with a \<open>range\<close> loop over a map: it lists the keys once each.
\<close>

definition map_range_order :: "(ptr list \<Rightarrow> ptr list) \<Rightarrow> bool" where
  "map_range_order rng \<longleftrightarrow> (\<forall>xs. mset (rng xs) = mset xs)"

definition emit :: "'w action \<Rightarrow> 'w Node \<Rightarrow> 'w Node" where
  "emit a n = n\<lparr>trace := trace n @ [a]\<rparr>"

text \<open>\<open>n.channelsMutex.Lock()\<close> and \<open>Unlock()\<close> of \<open>sync.Mutex\<close>.\<close>

definition Lock :: "'w Node \<Rightarrow> 'w Node ret" where
  "Lock n =
     (if channelsMutex n then Blocked
      else Return (emit MutexLock (n\<lparr>channelsMutex := True\<rparr>)))"

definition Unlock :: "'w Node \<Rightarrow> 'w Node ret" where
  "Unlock n =
     (if channelsMutex n then Return (emit MutexUnlock (n\<lparr>channelsMutex := False\<rparr>))
      else Panic ''sync: unlock of unlocked mutex'')"

text \<open>
  Modelled from the spec: the write task of a channel, which is in another file,
  ``consumes items from the Channel's write queue'' and ``after each write it sends a
  completion token back to the Node''. So the send \<open>channel.writeChan <- what\<close> is
  accepted, and the write task then owes the node one token.
\<close>

definition send :: "ptr \<Rightarrow> 'w \<Rightarrow> 'w Node \<Rightarrow> 'w Node" where
  "send channel what n =
     emit (Send channel what)
       (n\<lparr>writeChan := (writeChan n)(channel := writeChan n channel @ [what]),
          writeDone := Suc (writeDone n)\<rparr>)"

text \<open>\<open><-n.writeDone\<close>: blocks when no write task owes a token.\<close>

definition recvWriteDone :: "'w Node \<Rightarrow> 'w Node ret" where
  "recvWriteDone n =
     (if writeDone n = 0 then Blocked
      else Return (emit RecvWriteDone (n\<lparr>writeDone := writeDone n - 1\<rparr>)))"

text \<open>\<open>close(n.eventChan)\<close>: closing a closed channel panics.\<close>

definition closeEventChan :: "'w Node \<Rightarrow> 'w Node ret" where
  "closeEventChan n =
     (if eventChanClosed n then Panic ''close of closed channel''
      else Return (emit CloseEventChan (n\<lparr>eventChanClosed := True\<rparr>)))"

text \<open>
  Deferred calls. The file defers two kinds of call; a function's deferred calls run
  when it returns, the last deferred first. The list has the last deferred call at its
  head.
\<close>

datatype deferred = DeferUnlock | DeferRecvWriteDone

fun run_call :: "deferred \<Rightarrow> 'w Node \<Rightarrow> 'w Node ret" where
  "run_call DeferUnlock n = Unlock n"
| "run_call DeferRecvWriteDone n = recvWriteDone n"

fun run_deferred :: "deferred list \<Rightarrow> 'w Node \<Rightarrow> 'w Node ret" where
  "run_deferred [] n = Return n"
| "run_deferred (d # ds) n = andThen (run_call d n) (run_deferred ds)"

subsection \<open>The write primitives\<close>

definition writeTo :: "ptr \<Rightarrow> 'w \<Rightarrow> 'w Node \<Rightarrow> 'w Node ret" where
  "writeTo channel what n =
     andThen (Lock n) (\<lambda>n.
       if channel \<notin> set (channels n) then run_deferred [DeferUnlock] n
       else andThen (recvWriteDone (send channel what n)) (run_deferred [DeferUnlock]))"

fun writeAll_loop ::
  "ptr list \<Rightarrow> 'w \<Rightarrow> deferred list \<Rightarrow> 'w Node \<Rightarrow> deferred list \<times> 'w Node" where
  "writeAll_loop [] what ds n = (ds, n)"
| "writeAll_loop (channel # rest) what ds n =
     writeAll_loop rest what (DeferRecvWriteDone # ds) (send channel what n)"

definition writeAll :: "(ptr list \<Rightarrow> ptr list) \<Rightarrow> 'w \<Rightarrow> 'w Node \<Rightarrow> 'w Node ret" where
  "writeAll rng what n =
     andThen (Lock n) (\<lambda>n.
       case writeAll_loop (rng (channels n)) what [DeferUnlock] n of
         (ds, n') \<Rightarrow> run_deferred ds n')"

fun writeExcept_loop ::
  "ptr list \<Rightarrow> ptr \<Rightarrow> 'w \<Rightarrow> deferred list \<Rightarrow> 'w Node \<Rightarrow> deferred list \<times> 'w Node" where
  "writeExcept_loop [] exceptChannel what ds n = (ds, n)"
| "writeExcept_loop (channel # rest) exceptChannel what ds n =
     (if channel \<noteq> exceptChannel
      then writeExcept_loop rest exceptChannel what (DeferRecvWriteDone # ds)
             (send channel what n)
      else writeExcept_loop rest exceptChannel what ds n)"

definition writeExcept ::
  "(ptr list \<Rightarrow> ptr list) \<Rightarrow> ptr \<Rightarrow> 'w \<Rightarrow> 'w Node \<Rightarrow> 'w Node ret" where
  "writeExcept rng exceptChannel what n =
     andThen (Lock n) (\<lambda>n.
       case writeExcept_loop (rng (channels n)) exceptChannel what [DeferUnlock] n of
         (ds, n') \<Rightarrow> run_deferred ds n')"

subsection \<open>Construction\<close>

text \<open>
  Modelled from the spec: \<open>newChannel\<close>, which is in another file, allocates the
  object of a channel (``one byte-stream peer'' with a write queue) and returns the
  pointer to it. The new channel has an empty write queue; the arguments other than the
  label only reach the object created.
\<close>

definition newChannel ::
  "Endpoint \<Rightarrow> string \<Rightarrow> Endpoint \<Rightarrow> 'w Node \<Rightarrow> ptr \<times> 'w Node" where
  "newChannel e label rwc n =
     (heap_next n,
      emit (NewChannel (heap_next n) label)
        (n\<lparr>heap_next := Suc (heap_next n),
           writeChan := (writeChan n)(heap_next n := [])\<rparr>))"

text \<open>
  Modelled from the spec: \<open>newChannelAccepter\<close>, which is in another file, allocates
  the object of a channel accepter (``for server-style endpoints: accept new peers,
  create Channels'') and returns the pointer to it.
\<close>

definition newChannelAccepter :: "Endpoint \<Rightarrow> 'w Node \<Rightarrow> ptr \<times> 'w Node" where
  "newChannelAccepter eca n =
     (heap_next n,
      emit (NewChannelAccepter (heap_next n)) (n\<lparr>heap_next := Suc (heap_next n)\<rparr>))"

text \<open>
  Modelled from the spec: \<open>newNodeHeartbeat\<close>, which is in another file, returns the
  heartbeat task, or \<open>nil\<close> when the heartbeat is suppressed by the configuration or
  ``the dialect does not define HEARTBEAT'' (no dialect defines no message).
\<close>

definition newNodeHeartbeat :: "'w Node \<Rightarrow> ptr option \<times> 'w Node" where
  "newNodeHeartbeat n =
     (if HeartbeatDisable (conf n) then (None, n)
      else case Dialect (conf n) of
        None \<Rightarrow> (None, n)
      | Some d \<Rightarrow>
          if definesHeartbeat d
          then (Some (heap_next n),
                emit (NewHeartbeat (heap_next n)) (n\<lparr>heap_next := Suc (heap_next n)\<rparr>))
          else (None, n))"

definition createChannel ::
  "Endpoint \<Rightarrow> string \<Rightarrow> Endpoint \<Rightarrow> 'w Node \<Rightarrow> (ptr \<times> 'w Node) ret" where
  "createChannel e label rwc n =
     andThen (Lock n) (\<lambda>n.
       case newChannel e label rwc n of
         (ch, n) \<Rightarrow>
           andThen (run_deferred [DeferUnlock] (n\<lparr>channels := List.insert ch (channels n)\<rparr>))
             (\<lambda>n. Return (ch, n)))"

text \<open>The calls \<open>close()\<close> and \<open>start()\<close> on the objects of a map, in range order.\<close>

definition closeChannels :: "(ptr list \<Rightarrow> ptr list) \<Rightarrow> 'w Node \<Rightarrow> 'w Node" where
  "closeChannels rng n = fold (\<lambda>ch. emit (ChannelClose ch)) (rng (channels n)) n"

definition closeAccepters :: "(ptr list \<Rightarrow> ptr list) \<Rightarrow> 'w Node \<Rightarrow> 'w Node" where
  "closeAccepters rng n = fold (\<lambda>ca. emit (AccepterClose ca)) (rng (channelAccepters n)) n"

definition start :: "(ptr list \<Rightarrow> ptr list) \<Rightarrow> 'w Node \<Rightarrow> 'w Node" where
  "start rng n =
     (let n1 = (case nodeHeartbeat n of None \<Rightarrow> n | Some h \<Rightarrow> emit (HeartbeatStart h) n);
          n2 = fold (\<lambda>ch. emit (ChannelStart ch)) (rng (channels n1)) n1
      in fold (\<lambda>ca. emit (AccepterStart ca)) (rng (channelAccepters n2)) n2)"

text \<open>
  What \<open>NewNode\<close> returns: \<open>(n, nil)\<close> is \<open>Ok n\<close>; \<open>(nil, err)\<close> is \<open>Err err tr\<close>,
  where \<open>tr\<close> is the log of the node that was dropped.
\<close>

datatype 'w NewNode_result = Ok "'w Node" | Err error "'w action list"

text \<open>The loop of \<open>NewNode\<close> over \<open>conf.Endpoints\<close>.\<close>

fun NewNode_endpoints ::
  "(ptr list \<Rightarrow> ptr list) \<Rightarrow> EndpointConf list \<Rightarrow> 'w Node \<Rightarrow> (error \<times> 'w Node + 'w Node) ret" where
  "NewNode_endpoints rng [] n = Return (Inr n)"
| "NewNode_endpoints rng (tconf # rest) n =
     (case init tconf of
        Inl err \<Rightarrow> Return (Inl (err, closeAccepters rng (closeChannels rng n)))
      | Inr tp \<Rightarrow>
          if isChannelAccepter tp then
            (case newChannelAccepter tp n of
               (ca, n) \<Rightarrow>
                 NewNode_endpoints rng rest
                   (n\<lparr>channelAccepters := List.insert ca (channelAccepters n)\<rparr>))
          else if isChannelSingle tp then
            andThen (createChannel tp (Label tp) tp n)
              (\<lambda>(ch, n). NewNode_endpoints rng rest n)
          else Panic ''endpoint does not implement any interface'')"

definition NewNode :: "(ptr list \<Rightarrow> ptr list) \<Rightarrow> NodeConf \<Rightarrow> 'w NewNode_result ret" where
  "NewNode rng conf0 =
     (if OutSystemId conf0 < 1 then Return (Err ''SystemId must be >= 1'' [])
      else
        let conf1 = (if OutComponentId conf0 < 1 then conf0\<lparr>OutComponentId := 1\<rparr> else conf0)
        in
          if length (Endpoints conf1) = 0
          then Return (Err ''at least one endpoint must be provided'' [])
          else if OutSignatureKey conf1 \<noteq> None \<and> OutVersion conf1 \<noteq> V2
          then Return (Err ''OutSignatureKey requires V2 frames'' [])
          else
            let conf2 = (if HeartbeatPeriod conf1 = 0
                         then conf1\<lparr>HeartbeatPeriod := 5 * Second\<rparr> else conf1);
                conf3 = (if HeartbeatSystemType conf2 = 0
                         then conf2\<lparr>HeartbeatSystemType := 6\<rparr> else conf2);
                n = \<lparr>conf = conf3, writeDone = 0, eventChanClosed = False,
                     channelAccepters = [], channelsMutex = False, channels = [],
                     nodeHeartbeat = None, writeChan = (\<lambda>_. []), heap_next = 0,
                     trace = []\<rparr>
            in
              andThen (NewNode_endpoints rng (Endpoints conf3) n) (\<lambda>r.
                case r of
                  Inl (err, n) \<Rightarrow> Return (Err err (trace n))
                | Inr n \<Rightarrow>
                    (case newNodeHeartbeat n of
                       (h, n) \<Rightarrow> Return (Ok (start rng (n\<lparr>nodeHeartbeat := h\<rparr>))))))"

subsection \<open>Close\<close>

definition Close :: "(ptr list \<Rightarrow> ptr list) \<Rightarrow> 'w Node \<Rightarrow> 'w Node ret" where
  "Close rng n =
     (let n1 = (case nodeHeartbeat n of None \<Rightarrow> n | Some h \<Rightarrow> emit (HeartbeatClose h) n);
          n2 = closeAccepters rng n1
      in
        andThen (Lock n2) (\<lambda>n3.
          andThen (run_deferred [DeferUnlock] (closeChannels rng n3)) (\<lambda>n4.
            closeEventChan (emit WgWait (emit GoDrainEvents n4)))))"

subsection \<open>Reading the log\<close>

text \<open>The objects created and the objects closed, in the order of the log.\<close>

primrec created_channels :: "'w action list \<Rightarrow> ptr list" where
  "created_channels [] = []"
| "created_channels (a # tr) =
     (case a of NewChannel p l \<Rightarrow> p # created_channels tr | _ \<Rightarrow> created_channels tr)"

primrec created_accepters :: "'w action list \<Rightarrow> ptr list" where
  "created_accepters [] = []"
| "created_accepters (a # tr) =
     (case a of NewChannelAccepter p \<Rightarrow> p # created_accepters tr | _ \<Rightarrow> created_accepters tr)"

primrec closed_channels :: "'w action list \<Rightarrow> ptr list" where
  "closed_channels [] = []"
| "closed_channels (a # tr) =
     (case a of ChannelClose p \<Rightarrow> p # closed_channels tr | _ \<Rightarrow> closed_channels tr)"

primrec closed_accepters :: "'w action list \<Rightarrow> ptr list" where
  "closed_accepters [] = []"
| "closed_accepters (a # tr) =
     (case a of AccepterClose p \<Rightarrow> p # closed_accepters tr | _ \<Rightarrow> closed_accepters tr)"

subsection \<open>Example configurations\<close>

text \<open>
  The configuration of the package's basic example: one serial endpoint (a single
  channel), a dialect, system id 10, every other field at its zero value.
\<close>

definition example_conf :: NodeConf where
  "example_conf =
     NodeConf_zero\<lparr>Endpoints := [MkEndpointConf (Inr (MkEndpoint False True ''serial''))],
                   Dialect := Some (MkDialect True),
                   OutSystemId := 10\<rparr>"

text \<open>
  A TCP server (an accepter) and a serial port that initialise, followed by an endpoint
  whose \<open>init()\<close> fails and by one that is never reached.
\<close>

definition failing_conf :: NodeConf where
  "failing_conf =
     NodeConf_zero\<lparr>Endpoints :=
                     [MkEndpointConf (Inr (MkEndpoint True False ''tcp'')),
                      MkEndpointConf (Inr (MkEndpoint False True ''serial'')),
                      MkEndpointConf (Inl ''bind: address already in use''),
                      MkEndpointConf (Inr (MkEndpoint False True ''serial2''))],
                   OutSystemId := 1\<rparr>"

text \<open>
  A running node with one channel accepter, two channels and a heartbeat task, whose
  items are strings.
\<close>

definition example_node :: "string Node" where
  "example_node =
     \<lparr>conf = example_conf, writeDone = 0, eventChanClosed = False,
      channelAccepters = [0], channelsMutex = False, channels = [1, 2],
      nodeHeartbeat = Some 3, writeChan = (\<lambda>_. []), heap_next = 4, trace = []\<rparr>"

text \<open>
  The configuration of the basic example with, in place of the serial port, an endpoint
  that initialises but implements neither endpoint interface.
\<close>

definition neither_conf :: NodeConf where
  "neither_conf =
     example_conf\<lparr>Endpoints := [MkEndpointConf (Inr (MkEndpoint False False ''none''))]\<rparr>"

section \<open>Properties\<close>

subsection \<open>The log and the primitive operations\<close>

lemma emit_fields:
  "conf (emit a n) = conf n"
  "writeDone (emit a n) = writeDone n"
  "eventChanClosed (emit a n) = eventChanClosed n"
  "channelAccepters (emit a n) = channelAccepters n"
  "channelsMutex (emit a n) = channelsMutex n"
  "channels (emit a n) = channels n"
  "nodeHeartbeat (emit a n) = nodeHeartbeat n"
  "writeChan (emit a n) = writeChan n"
  "heap_next (emit a n) = heap_next n"
  "trace (emit a n) = trace n @ [a]"
  by (simp_all add: emit_def)

lemma fold_emit: "fold (\<lambda>x. emit (f x)) xs n = n\<lparr>trace := trace n @ map f xs\<rparr>"
  by (induction xs arbitrary: n) (simp_all add: emit_def)

lemma closeChannels_eq:
  "closeChannels rng n = n\<lparr>trace := trace n @ map ChannelClose (rng (channels n))\<rparr>"
  by (simp add: closeChannels_def fold_emit)

lemma closeAccepters_eq:
  "closeAccepters rng n = n\<lparr>trace := trace n @ map AccepterClose (rng (channelAccepters n))\<rparr>"
  by (simp add: closeAccepters_def fold_emit)

lemma start_eq:
  "start rng n =
     n\<lparr>trace := trace n @ (case nodeHeartbeat n of None \<Rightarrow> [] | Some h \<Rightarrow> [HeartbeatStart h])
         @ map ChannelStart (rng (channels n)) @ map AccepterStart (rng (channelAccepters n))\<rparr>"
  by (simp add: start_def fold_emit emit_def Let_def split: option.splits)

lemma createChannel_eq:
  "\<not> channelsMutex n \<Longrightarrow>
   createChannel e label rwc n =
     Return (heap_next n,
       n\<lparr>heap_next := Suc (heap_next n),
         writeChan := (writeChan n)(heap_next n := []),
         channels := List.insert (heap_next n) (channels n),
         trace := trace n @ [MutexLock, NewChannel (heap_next n) label, MutexUnlock]\<rparr>)"
  by (simp add: createChannel_def Lock_def Unlock_def newChannel_def emit_def)

lemma created_channels_append:
  "created_channels (xs @ ys) = created_channels xs @ created_channels ys"
  by (induction xs) (simp_all split: action.splits)

lemma created_accepters_append:
  "created_accepters (xs @ ys) = created_accepters xs @ created_accepters ys"
  by (induction xs) (simp_all split: action.splits)

lemma closed_channels_append:
  "closed_channels (xs @ ys) = closed_channels xs @ closed_channels ys"
  by (induction xs) (simp_all split: action.splits)

lemma closed_accepters_append:
  "closed_accepters (xs @ ys) = closed_accepters xs @ closed_accepters ys"
  by (induction xs) (simp_all split: action.splits)

lemma closed_channels_map [simp]:
  "closed_channels (map ChannelClose ps) = ps"
  "closed_channels (map AccepterClose ps) = []"
  "closed_accepters (map AccepterClose ps) = ps"
  "closed_accepters (map ChannelClose ps) = []"
  "created_channels (map ChannelClose ps) = []"
  "created_channels (map AccepterClose ps) = []"
  "created_accepters (map ChannelClose ps) = []"
  "created_accepters (map AccepterClose ps) = []"
  by (induction ps) simp_all

lemmas log_append = created_channels_append created_accepters_append
  closed_channels_append closed_accepters_append

lemma count_CloseEventChan_map [simp]:
  "count_list (map AccepterClose ps) CloseEventChan = 0"
  "count_list (map ChannelClose ps) CloseEventChan = 0"
  by (induction ps) simp_all

subsection \<open>The endpoint loop of NewNode\<close>

lemma NewNode_endpoints_prefix:
  assumes "\<not> channelsMutex n"
    and "\<forall>e'\<in>set pre. \<exists>tp. init e' = Inr tp \<and> (isChannelAccepter tp \<or> isChannelSingle tp)"
  shows "\<exists>n1. \<not> channelsMutex n1
           \<and> NewNode_endpoints rng (pre @ rest) n = NewNode_endpoints rng rest n1"
  using assms
proof (induction pre arbitrary: n)
  case Nil
  then show ?case by auto
next
  case (Cons e' pre)
  from Cons.prems(2) obtain tp where tp: "init e' = Inr tp"
    and impl: "isChannelAccepter tp \<or> isChannelSingle tp" by auto
  have rest: "\<forall>e'\<in>set pre. \<exists>tp. init e' = Inr tp \<and> (isChannelAccepter tp \<or> isChannelSingle tp)"
    using Cons.prems(2) by simp
  show ?case
  proof (cases "isChannelAccepter tp")
    case True
    let ?n = "n\<lparr>heap_next := Suc (heap_next n),
                trace := trace n @ [NewChannelAccepter (heap_next n)],
                channelAccepters := List.insert (heap_next n) (channelAccepters n)\<rparr>"
    have step: "NewNode_endpoints rng ((e' # pre) @ rest) n
                = NewNode_endpoints rng (pre @ rest) ?n"
      using tp True by (simp add: newChannelAccepter_def emit_def)
    have m: "\<not> channelsMutex ?n" using Cons.prems(1) by simp
    from Cons.IH [OF m rest] show ?thesis unfolding step .
  next
    case False
    with impl have single: "isChannelSingle tp" by simp
    let ?n = "n\<lparr>heap_next := Suc (heap_next n),
                writeChan := (writeChan n)(heap_next n := []),
                channels := List.insert (heap_next n) (channels n),
                trace := trace n @ [MutexLock, NewChannel (heap_next n) (Label tp), MutexUnlock]\<rparr>"
    have step: "NewNode_endpoints rng ((e' # pre) @ rest) n
                = NewNode_endpoints rng (pre @ rest) ?n"
      using tp False single Cons.prems(1) by (simp add: createChannel_eq)
    have m: "\<not> channelsMutex ?n" using Cons.prems(1) by simp
    from Cons.IH [OF m rest] show ?thesis unfolding step .
  qed
qed

lemma first_endpoint_not_ok:
  "(\<forall>e\<in>set es. P e) \<or> (\<exists>pre e post. es = pre @ e # post \<and> \<not> P e \<and> (\<forall>e'\<in>set pre. P e'))"
proof (cases "\<exists>e\<in>set es. \<not> P e")
  case True
  from split_list_first_prop [OF this] show ?thesis by auto
next
  case False
  then show ?thesis by simp
qed

lemma NewNode_endpoints_Inr:
  "\<not> channelsMutex n \<Longrightarrow> NewNode_endpoints rng es n = Return (Inr n') \<Longrightarrow>
   conf n' = conf n \<and> \<not> channelsMutex n'"
proof (induction es arbitrary: n)
  case Nil
  then show ?case by simp
next
  case (Cons e es)
  show ?case
  proof (cases "init e")
    case (Inl err)
    with Cons.prems show ?thesis by simp
  next
    case (Inr tp)
    consider (acc) "isChannelAccepter tp"
      | (single) "\<not> isChannelAccepter tp" "isChannelSingle tp"
      | (neither) "\<not> isChannelAccepter tp" "\<not> isChannelSingle tp" by blast
    then show ?thesis
    proof cases
      case acc
      let ?n = "n\<lparr>heap_next := Suc (heap_next n),
                  trace := trace n @ [NewChannelAccepter (heap_next n)],
                  channelAccepters := List.insert (heap_next n) (channelAccepters n)\<rparr>"
      have "NewNode_endpoints rng es ?n = Return (Inr n')"
        using Cons.prems(2) Inr acc by (simp add: newChannelAccepter_def emit_def)
      moreover have "\<not> channelsMutex ?n" using Cons.prems(1) by simp
      ultimately have "conf n' = conf ?n \<and> \<not> channelsMutex n'" by (rule Cons.IH [rotated])
      then show ?thesis by simp
    next
      case single
      let ?n = "n\<lparr>heap_next := Suc (heap_next n),
                  writeChan := (writeChan n)(heap_next n := []),
                  channels := List.insert (heap_next n) (channels n),
                  trace := trace n @ [MutexLock, NewChannel (heap_next n) (Label tp), MutexUnlock]\<rparr>"
      have "NewNode_endpoints rng es ?n = Return (Inr n')"
        using Cons.prems Inr single by (simp add: createChannel_eq)
      moreover have "\<not> channelsMutex ?n" using Cons.prems(1) by simp
      ultimately have "conf n' = conf ?n \<and> \<not> channelsMutex n'" by (rule Cons.IH [rotated])
      then show ?thesis by simp
    next
      case neither
      with Cons.prems Inr show ?thesis by simp
    qed
  qed
qed

lemma NewNode_endpoints_fail:
  assumes "\<not> channelsMutex n"
    and "\<forall>p\<in>set (channels n). p < heap_next n"
    and "\<forall>p\<in>set (channelAccepters n). p < heap_next n"
    and "\<forall>e'\<in>set pre. \<exists>tp. init e' = Inr tp \<and> (isChannelAccepter tp \<or> isChannelSingle tp)"
    and "init e = Inl err"
  shows "\<exists>T n1. NewNode_endpoints rng (pre @ e # post) n
             = Return (Inl (err, closeAccepters rng (closeChannels rng n1)))
           \<and> trace n1 = trace n @ T
           \<and> mset (channels n1) = mset (channels n) + mset (created_channels T)
           \<and> mset (channelAccepters n1) = mset (channelAccepters n) + mset (created_accepters T)
           \<and> closed_channels T = [] \<and> closed_accepters T = []
           \<and> length (created_channels T) + length (created_accepters T) = length pre"
  using assms(1-4)
proof (induction pre arbitrary: n)
  case Nil
  show ?case
    using assms(5) by (intro exI [of _ "[]"] exI [of _ n]) simp
next
  case (Cons e' pre)
  from Cons.prems(4) obtain tp where tp: "init e' = Inr tp"
    and impl: "isChannelAccepter tp \<or> isChannelSingle tp" by auto
  have rest: "\<forall>e'\<in>set pre. \<exists>tp. init e' = Inr tp \<and> (isChannelAccepter tp \<or> isChannelSingle tp)"
    using Cons.prems(4) by simp
  have fresh_c: "heap_next n \<notin> set (channels n)" using Cons.prems(2) by auto
  have fresh_a: "heap_next n \<notin> set (channelAccepters n)" using Cons.prems(3) by auto
  show ?case
  proof (cases "isChannelAccepter tp")
    case True
    let ?n = "n\<lparr>heap_next := Suc (heap_next n),
                trace := trace n @ [NewChannelAccepter (heap_next n)],
                channelAccepters := List.insert (heap_next n) (channelAccepters n)\<rparr>"
    have step: "NewNode_endpoints rng ((e' # pre) @ e # post) n
                = NewNode_endpoints rng (pre @ e # post) ?n"
      using tp True by (simp add: newChannelAccepter_def emit_def)
    have m: "\<not> channelsMutex ?n" using Cons.prems(1) by simp
    have f: "\<forall>p\<in>set (channels ?n). p < heap_next ?n"
      using Cons.prems(2) by (simp add: less_Suc_eq)
    have g: "\<forall>p\<in>set (channelAccepters ?n). p < heap_next ?n"
      using Cons.prems(3) by (simp add: less_Suc_eq)
    from Cons.IH [OF m f g rest] obtain T n1 where
      r: "NewNode_endpoints rng (pre @ e # post) ?n
            = Return (Inl (err, closeAccepters rng (closeChannels rng n1)))"
      and t: "trace n1 = trace ?n @ T"
      and c: "mset (channels n1) = mset (channels ?n) + mset (created_channels T)"
      and a: "mset (channelAccepters n1) = mset (channelAccepters ?n) + mset (created_accepters T)"
      and z: "closed_channels T = []" "closed_accepters T = []"
      and l: "length (created_channels T) + length (created_accepters T) = length pre"
      by blast
    show ?thesis
      using r t c a z l step fresh_a
      by (intro exI [of _ "NewChannelAccepter (heap_next n) # T"] exI [of _ n1]) simp
  next
    case False
    with impl have single: "isChannelSingle tp" by simp
    let ?n = "n\<lparr>heap_next := Suc (heap_next n),
                writeChan := (writeChan n)(heap_next n := []),
                channels := List.insert (heap_next n) (channels n),
                trace := trace n @ [MutexLock, NewChannel (heap_next n) (Label tp), MutexUnlock]\<rparr>"
    have step: "NewNode_endpoints rng ((e' # pre) @ e # post) n
                = NewNode_endpoints rng (pre @ e # post) ?n"
      using tp False single Cons.prems(1) by (simp add: createChannel_eq)
    have m: "\<not> channelsMutex ?n" using Cons.prems(1) by simp
    have f: "\<forall>p\<in>set (channels ?n). p < heap_next ?n"
      using Cons.prems(2) by (simp add: less_Suc_eq)
    have g: "\<forall>p\<in>set (channelAccepters ?n). p < heap_next ?n"
      using Cons.prems(3) by (simp add: less_Suc_eq)
    from Cons.IH [OF m f g rest] obtain T n1 where
      r: "NewNode_endpoints rng (pre @ e # post) ?n
            = Return (Inl (err, closeAccepters rng (closeChannels rng n1)))"
      and t: "trace n1 = trace ?n @ T"
      and c: "mset (channels n1) = mset (channels ?n) + mset (created_channels T)"
      and a: "mset (channelAccepters n1) = mset (channelAccepters ?n) + mset (created_accepters T)"
      and z: "closed_channels T = []" "closed_accepters T = []"
      and l: "length (created_channels T) + length (created_accepters T) = length pre"
      by blast
    show ?thesis
      using r t c a z l step fresh_c
      by (intro exI [of _ "[MutexLock, NewChannel (heap_next n) (Label tp), MutexUnlock] @ T"]
            exI [of _ n1]) simp
  qed
qed

lemma NewNode_valid:
  assumes "\<not> OutSystemId c < 1" and "Endpoints c \<noteq> []"
    and "OutSignatureKey c = None \<or> OutVersion c = V2"
  shows "NewNode rng c =
     andThen
       (NewNode_endpoints rng (Endpoints c)
          \<lparr>conf = c\<lparr>OutComponentId := (if OutComponentId c < 1 then 1 else OutComponentId c),
                     HeartbeatPeriod := (if HeartbeatPeriod c = 0 then 5 * Second else HeartbeatPeriod c),
                     HeartbeatSystemType := (if HeartbeatSystemType c = 0 then 6 else HeartbeatSystemType c)\<rparr>,
           writeDone = 0, eventChanClosed = False, channelAccepters = [],
           channelsMutex = False, channels = [], nodeHeartbeat = None,
           writeChan = (\<lambda>_. []), heap_next = 0, trace = []\<rparr>)
       (\<lambda>r. case r of
          Inl (err, n) \<Rightarrow> Return (Err err (trace n))
        | Inr n \<Rightarrow>
            (case newNodeHeartbeat n of
               (h, n) \<Rightarrow> Return (Ok (start rng (n\<lparr>nodeHeartbeat := h\<rparr>)))))"
  using assms by (auto simp add: NewNode_def Let_def)

lemma newNodeHeartbeat_conf: "conf (snd (newNodeHeartbeat n)) = conf n"
  by (simp add: newNodeHeartbeat_def emit_def split: option.splits)

lemma start_conf: "conf (start rng n) = conf n"
  by (simp add: start_eq)

lemma NewNode_Ok_conf:
  assumes "NewNode rng c = Return (Ok n)"
  shows "conf n =
     c\<lparr>OutComponentId := (if OutComponentId c < 1 then 1 else OutComponentId c),
       HeartbeatPeriod := (if HeartbeatPeriod c = 0 then 5 * Second else HeartbeatPeriod c),
       HeartbeatSystemType := (if HeartbeatSystemType c = 0 then 6 else HeartbeatSystemType c)\<rparr>"
proof -
  let ?c = "c\<lparr>OutComponentId := (if OutComponentId c < 1 then 1 else OutComponentId c),
       HeartbeatPeriod := (if HeartbeatPeriod c = 0 then 5 * Second else HeartbeatPeriod c),
       HeartbeatSystemType := (if HeartbeatSystemType c = 0 then 6 else HeartbeatSystemType c)\<rparr>"
  let ?n0 = "\<lparr>conf = ?c,
           writeDone = 0, eventChanClosed = False, channelAccepters = [],
           channelsMutex = False, channels = [], nodeHeartbeat = None,
           writeChan = (\<lambda>_. []), heap_next = 0, trace = []\<rparr> :: 'a Node"
  have v: "\<not> OutSystemId c < 1" "Endpoints c \<noteq> []"
    "OutSignatureKey c = None \<or> OutVersion c = V2"
    using assms by (auto simp add: NewNode_def Let_def split: if_splits)
  from assms obtain n1 where
    loop: "NewNode_endpoints rng (Endpoints c) ?n0 = Return (Inr n1)"
    and n: "n = start rng ((snd (newNodeHeartbeat n1))\<lparr>nodeHeartbeat := fst (newNodeHeartbeat n1)\<rparr>)"
    unfolding NewNode_valid [OF v]
    by (cases "NewNode_endpoints rng (Endpoints c) ?n0")
      (auto split: sum.splits prod.splits)
  have "conf n1 = ?c"
    using NewNode_endpoints_Inr [OF _ loop] by simp
  then show ?thesis
    by (simp add: n start_conf newNodeHeartbeat_conf)
qed

subsection \<open>The loops of the write primitives and the deferred calls\<close>

lemma writeAll_loop_eq:
  "writeAll_loop cs what ds n =
     (replicate (length cs) DeferRecvWriteDone @ ds,
      n\<lparr>writeChan := (\<lambda>c. writeChan n c @ replicate (count_list cs c) what),
        writeDone := writeDone n + length cs,
        trace := trace n @ map (\<lambda>c. Send c what) cs\<rparr>)"
proof (induction cs arbitrary: ds n)
  case Nil
  show ?case by simp
next
  case (Cons c cs)
  have r: "replicate (length cs) DeferRecvWriteDone @ DeferRecvWriteDone # ds
           = DeferRecvWriteDone # replicate (length cs) DeferRecvWriteDone @ ds"
    by (simp add: replicate_app_Cons_same)
  have w: "(\<lambda>c'. writeChan (send c what n) c' @ replicate (count_list cs c') what)
         = (\<lambda>c'. writeChan n c' @ replicate (count_list (c # cs) c') what)"
    by (auto simp add: send_def emit_def fun_eq_iff replicate_app_Cons_same)
  show ?case
    unfolding writeAll_loop.simps Cons.IH w
    by (simp add: r send_def emit_def)
qed

lemma writeExcept_loop_eq:
  "writeExcept_loop cs ex what ds n = writeAll_loop (filter (\<lambda>c. c \<noteq> ex) cs) what ds n"
  by (induction cs arbitrary: ds n) simp_all

lemma run_deferred_recvs:
  "k \<le> writeDone n \<Longrightarrow> channelsMutex n \<Longrightarrow>
   run_deferred (replicate k DeferRecvWriteDone @ [DeferUnlock]) n =
     Return (n\<lparr>writeDone := writeDone n - k, channelsMutex := False,
               trace := trace n @ replicate k RecvWriteDone @ [MutexUnlock]\<rparr>)"
proof (induction k arbitrary: n)
  case 0
  then show ?case by (simp add: Unlock_def emit_def)
next
  case (Suc k)
  let ?n = "n\<lparr>writeDone := writeDone n - 1, trace := trace n @ [RecvWriteDone]\<rparr>"
  have step: "run_deferred (replicate (Suc k) DeferRecvWriteDone @ [DeferUnlock]) n
              = run_deferred (replicate k DeferRecvWriteDone @ [DeferUnlock]) ?n"
    using Suc.prems by (simp add: recvWriteDone_def emit_def)
  have "k \<le> writeDone ?n" "channelsMutex ?n" using Suc.prems by simp_all
  from Suc.IH [OF this] show ?case
    unfolding step by (simp add: replicate_app_Cons_same)
qed

lemma count_list_distinct:
  "distinct xs \<Longrightarrow> count_list xs x = (if x \<in> set xs then 1 else 0)"
  by (induction xs) auto

lemma range_order_facts:
  assumes "map_range_order rng"
  shows "set (rng xs) = set xs" and "length (rng xs) = length xs"
    and "distinct (rng xs) = distinct xs"
proof -
  have m: "mset (rng xs) = mset xs" using assms by (simp add: map_range_order_def)
  show "set (rng xs) = set xs" using m by (rule mset_eq_setD)
  show "length (rng xs) = length xs" using m by (rule mset_eq_length)
  show "distinct (rng xs) = distinct xs" using m by (rule mset_eq_imp_distinct_iff)
qed

lemma writeAll_eq:
  assumes "\<not> channelsMutex n"
  shows "writeAll rng what n =
     Return (n\<lparr>writeChan := (\<lambda>c. writeChan n c @ replicate (count_list (rng (channels n)) c) what),
               trace := trace n @ [MutexLock] @ map (\<lambda>c. Send c what) (rng (channels n))
                 @ replicate (length (rng (channels n))) RecvWriteDone @ [MutexUnlock]\<rparr>)"
  using assms
  by (simp add: writeAll_def Lock_def emit_def writeAll_loop_eq run_deferred_recvs)

lemma writeExcept_eq:
  assumes "\<not> channelsMutex n"
  shows "writeExcept rng ex what n =
     Return (n\<lparr>writeChan := (\<lambda>c. writeChan n c
                    @ replicate (count_list (filter (\<lambda>c. c \<noteq> ex) (rng (channels n))) c) what),
               trace := trace n @ [MutexLock]
                 @ map (\<lambda>c. Send c what) (filter (\<lambda>c. c \<noteq> ex) (rng (channels n)))
                 @ replicate (length (filter (\<lambda>c. c \<noteq> ex) (rng (channels n)))) RecvWriteDone
                 @ [MutexUnlock]\<rparr>)"
  using assms
  by (simp add: writeExcept_def Lock_def emit_def writeExcept_loop_eq writeAll_loop_eq
      run_deferred_recvs)

subsection \<open>The example configurations\<close>

lemma map_range_order_id: "map_range_order id"
  by (simp add: map_range_order_def)

lemma map_range_order_rev: "map_range_order rev"
  by (simp add: map_range_order_def)

lemma example_conf_node: "\<exists>n. NewNode id example_conf = Return (Ok n)"
  by (simp add: NewNode_def example_conf_def NodeConf_zero_def Let_def V2_def
      createChannel_eq newNodeHeartbeat_def)

lemma failing_conf_trace:
  "(NewNode rev failing_conf :: unit NewNode_result ret)
     = Return (Err ''bind: address already in use''
         [NewChannelAccepter 0, MutexLock, NewChannel 1 ''serial'', MutexUnlock,
          ChannelClose 1, AccepterClose 0])"
  by (simp add: NewNode_def failing_conf_def NodeConf_zero_def Let_def V2_def
      createChannel_eq newChannelAccepter_def emit_def closeChannels_eq closeAccepters_eq)

subsection \<open>Claims\<close>

text \<open>
  C1, as amended. \<open>NewNode\<close> has three outcomes. It returns an error, and no node,
  exactly when the system id is below 1, or there is no endpoint, or an outgoing
  signature key is set while the outgoing version is not V2, or the \<open>init()\<close> of an
  endpoint fails after every endpoint before it initialised to an endpoint that
  implements the accepter or the single-channel interface. It returns a node exactly
  when the three checks pass and every endpoint initialises to such an endpoint. It
  panics exactly when the three checks pass and the first endpoint that does not
  initialise to such an endpoint initialises to one that implements neither interface.
\<close>

theorem NewNode_outcome:
  fixes c :: NodeConf and rng :: "ptr list \<Rightarrow> ptr list"
  shows "((\<exists>err tr. (NewNode rng c :: 'w NewNode_result ret) = Return (Err err tr)) \<longleftrightarrow>
            (OutSystemId c < 1 \<or> Endpoints c = []
             \<or> (OutSignatureKey c \<noteq> None \<and> OutVersion c \<noteq> V2)
             \<or> (\<exists>pre e post err. Endpoints c = pre @ e # post \<and> init e = Inl err
                  \<and> (\<forall>e'\<in>set pre. \<exists>tp. init e' = Inr tp
                        \<and> (isChannelAccepter tp \<or> isChannelSingle tp)))))
       \<and> ((\<exists>n. (NewNode rng c :: 'w NewNode_result ret) = Return (Ok n)) \<longleftrightarrow>
            (\<not> OutSystemId c < 1 \<and> Endpoints c \<noteq> []
             \<and> (OutSignatureKey c = None \<or> OutVersion c = V2)
             \<and> (\<forall>e\<in>set (Endpoints c). \<exists>tp. init e = Inr tp
                   \<and> (isChannelAccepter tp \<or> isChannelSingle tp))))
       \<and> (((NewNode rng c :: 'w NewNode_result ret)
              = Panic ''endpoint does not implement any interface'') \<longleftrightarrow>
            (\<not> OutSystemId c < 1 \<and> Endpoints c \<noteq> []
             \<and> (OutSignatureKey c = None \<or> OutVersion c = V2)
             \<and> (\<exists>pre e post tp. Endpoints c = pre @ e # post \<and> init e = Inr tp
                  \<and> \<not> isChannelAccepter tp \<and> \<not> isChannelSingle tp
                  \<and> (\<forall>e'\<in>set pre. \<exists>tp. init e' = Inr tp
                        \<and> (isChannelAccepter tp \<or> isChannelSingle tp)))))"
    (is "(?A \<longleftrightarrow> ?RA) \<and> (?B \<longleftrightarrow> ?RB) \<and> (?C \<longleftrightarrow> ?RC)")
proof -
  let ?ok = "\<lambda>e. \<exists>tp. init e = Inr tp \<and> (isChannelAccepter tp \<or> isChannelSingle tp)"
  let ?n0 = "\<lparr>conf = c\<lparr>OutComponentId := (if OutComponentId c < 1 then 1 else OutComponentId c),
                     HeartbeatPeriod := (if HeartbeatPeriod c = 0 then 5 * Second else HeartbeatPeriod c),
                     HeartbeatSystemType := (if HeartbeatSystemType c = 0 then 6 else HeartbeatSystemType c)\<rparr>,
           writeDone = 0, eventChanClosed = False, channelAccepters = [],
           channelsMutex = False, channels = [], nodeHeartbeat = None,
           writeChan = (\<lambda>_. []), heap_next = 0, trace = []\<rparr> :: 'w Node"
  have m: "\<not> channelsMutex ?n0" by simp
  have excl: "\<not> (?A \<and> ?B)" "\<not> (?A \<and> ?C)" "\<not> (?B \<and> ?C)" by auto
  have a: "?A" if "?RA"
  proof (cases "OutSystemId c < 1 \<or> Endpoints c = []
                 \<or> (OutSignatureKey c \<noteq> None \<and> OutVersion c \<noteq> V2)")
    case True
    then have "\<exists>err. (NewNode rng c :: 'w NewNode_result ret) = Return (Err err [])"
      by (auto simp add: NewNode_def Let_def)
    then show ?thesis by blast
  next
    case False
    with that obtain pre e post err where d: "Endpoints c = pre @ e # post"
      and f: "init e = Inl err" and p: "\<forall>e'\<in>set pre. ?ok e'" by blast
    from False have v: "\<not> OutSystemId c < 1" "Endpoints c \<noteq> []"
      "OutSignatureKey c = None \<or> OutVersion c = V2" by auto
    from NewNode_endpoints_prefix [OF m p, of rng "e # post"] obtain n1 where
      "NewNode_endpoints rng (Endpoints c) ?n0 = NewNode_endpoints rng (e # post) n1"
      unfolding d by blast
    then have "\<exists>n'. NewNode_endpoints rng (Endpoints c) ?n0 = Return (Inl (err, n'))"
      using f by simp
    then show ?thesis
      by (auto simp add: NewNode_valid [OF v])
  qed
  have b: "?B" if "?RB"
  proof -
    from that have v: "\<not> OutSystemId c < 1" "Endpoints c \<noteq> []"
      "OutSignatureKey c = None \<or> OutVersion c = V2"
      and p: "\<forall>e\<in>set (Endpoints c). ?ok e" by auto
    from NewNode_endpoints_prefix [OF m p, of rng "[]"] obtain n1 where
      "NewNode_endpoints rng (Endpoints c) ?n0 = Return (Inr n1)" by auto
    then show ?thesis
      by (simp add: NewNode_valid [OF v] split: prod.splits)
  qed
  have c: "?C" if "?RC"
  proof -
    from that obtain pre e post tp where v: "\<not> OutSystemId c < 1" "Endpoints c \<noteq> []"
      "OutSignatureKey c = None \<or> OutVersion c = V2"
      and d: "Endpoints c = pre @ e # post" and i: "init e = Inr tp"
      and nn: "\<not> isChannelAccepter tp" "\<not> isChannelSingle tp"
      and p: "\<forall>e'\<in>set pre. ?ok e'" by blast
    from NewNode_endpoints_prefix [OF m p, of rng "e # post"] obtain n1 where
      "NewNode_endpoints rng (Endpoints c) ?n0 = NewNode_endpoints rng (e # post) n1"
      unfolding d by blast
    then have "NewNode_endpoints rng (Endpoints c) ?n0
               = Panic ''endpoint does not implement any interface''"
      using i nn by simp
    then show ?thesis
      by (simp add: NewNode_valid [OF v])
  qed
  have total: "?RA \<or> ?RB \<or> ?RC"
  proof (cases "OutSystemId c < 1 \<or> Endpoints c = []
                 \<or> (OutSignatureKey c \<noteq> None \<and> OutVersion c \<noteq> V2)")
    case True
    then show ?thesis by blast
  next
    case False
    from first_endpoint_not_ok [of "Endpoints c" ?ok]
    consider (all) "\<forall>e\<in>set (Endpoints c). ?ok e"
      | (stop) pre e post where "Endpoints c = pre @ e # post" "\<not> ?ok e" "\<forall>e'\<in>set pre. ?ok e'"
      by blast
    then show ?thesis
    proof cases
      case all
      with False show ?thesis by blast
    next
      case stop
      show ?thesis
      proof (cases "init e")
        case (Inl err)
        with stop have "?RA" by blast
        then show ?thesis by blast
      next
        case (Inr tp)
        with stop(2) have "\<not> isChannelAccepter tp" "\<not> isChannelSingle tp" by auto
        with Inr stop(1,3) False have "?RC" by blast
        then show ?thesis by blast
      qed
    qed
  qed
  from a b c total excl show ?thesis by blast
qed

theorem NewNode_outcome_witness:
  "(\<exists>n. (NewNode id example_conf :: unit NewNode_result ret) = Return (Ok n))
   \<and> (\<exists>err tr. (NewNode id failing_conf :: unit NewNode_result ret) = Return (Err err tr))
   \<and> (NewNode id neither_conf :: unit NewNode_result ret)
       = Panic ''endpoint does not implement any interface''"
proof -
  have ok: "\<not> OutSystemId example_conf < 1 \<and> Endpoints example_conf \<noteq> []
      \<and> (OutSignatureKey example_conf = None \<or> OutVersion example_conf = V2)
      \<and> (\<forall>e\<in>set (Endpoints example_conf). \<exists>tp. init e = Inr tp
            \<and> (isChannelAccepter tp \<or> isChannelSingle tp))"
    by (simp add: example_conf_def NodeConf_zero_def)
  have "\<exists>pre e post err. Endpoints failing_conf = pre @ e # post \<and> init e = Inl err
      \<and> (\<forall>e'\<in>set pre. \<exists>tp. init e' = Inr tp \<and> (isChannelAccepter tp \<or> isChannelSingle tp))"
    by (intro exI [of _ "[MkEndpointConf (Inr (MkEndpoint True False ''tcp'')),
                         MkEndpointConf (Inr (MkEndpoint False True ''serial''))]"]
          exI [of _ "MkEndpointConf (Inl ''bind: address already in use'')"]
          exI [of _ "[MkEndpointConf (Inr (MkEndpoint False True ''serial2''))]"]
          exI [of _ "''bind: address already in use''"])
       (simp add: failing_conf_def NodeConf_zero_def)
  then have err: "OutSystemId failing_conf < 1 \<or> Endpoints failing_conf = []
      \<or> (OutSignatureKey failing_conf \<noteq> None \<and> OutVersion failing_conf \<noteq> V2)
      \<or> (\<exists>pre e post err. Endpoints failing_conf = pre @ e # post \<and> init e = Inl err
          \<and> (\<forall>e'\<in>set pre. \<exists>tp. init e' = Inr tp \<and> (isChannelAccepter tp \<or> isChannelSingle tp)))"
    by blast
  have "\<exists>pre e post tp. Endpoints neither_conf = pre @ e # post \<and> init e = Inr tp
      \<and> \<not> isChannelAccepter tp \<and> \<not> isChannelSingle tp
      \<and> (\<forall>e'\<in>set pre. \<exists>tp. init e' = Inr tp \<and> (isChannelAccepter tp \<or> isChannelSingle tp))"
    by (intro exI [of _ "[]"] exI [of _ "MkEndpointConf (Inr (MkEndpoint False False ''none''))"]
          exI [of _ "MkEndpoint False False ''none''"])
       (simp add: neither_conf_def example_conf_def NodeConf_zero_def)
  then have pan: "\<not> OutSystemId neither_conf < 1 \<and> Endpoints neither_conf \<noteq> []
      \<and> (OutSignatureKey neither_conf = None \<or> OutVersion neither_conf = V2)
      \<and> (\<exists>pre e post tp. Endpoints neither_conf = pre @ e # post \<and> init e = Inr tp
          \<and> \<not> isChannelAccepter tp \<and> \<not> isChannelSingle tp
          \<and> (\<forall>e'\<in>set pre. \<exists>tp. init e' = Inr tp \<and> (isChannelAccepter tp \<or> isChannelSingle tp)))"
    by (simp add: neither_conf_def example_conf_def NodeConf_zero_def)
  from NewNode_outcome [where ?'w = unit and c = example_conf and rng = id] ok
  have 1: "\<exists>n. (NewNode id example_conf :: unit NewNode_result ret) = Return (Ok n)" by blast
  from NewNode_outcome [where ?'w = unit and c = failing_conf and rng = id] err
  have 2: "\<exists>err tr. (NewNode id failing_conf :: unit NewNode_result ret) = Return (Err err tr)"
    by blast
  from NewNode_outcome [where ?'w = unit and c = neither_conf and rng = id] pan
  have 3: "(NewNode id neither_conf :: unit NewNode_result ret)
       = Panic ''endpoint does not implement any interface''" by blast
  from 1 2 3 show ?thesis by blast
qed

text \<open>
  Without the condition on the endpoints the claim fails: the configuration whose only
  endpoint initialises and implements neither interface passes the three checks, no
  \<open>init()\<close> fails, and \<open>NewNode\<close> panics instead of returning a node.
\<close>

theorem NewNode_neither_counterexample:
  "\<not> OutSystemId neither_conf < 1
   \<and> Endpoints neither_conf = [MkEndpointConf (Inr (MkEndpoint False False ''none''))]
   \<and> OutSignatureKey neither_conf = None
   \<and> (NewNode id neither_conf :: unit NewNode_result ret)
       = Panic ''endpoint does not implement any interface''"
  by (simp add: NewNode_def neither_conf_def example_conf_def NodeConf_zero_def Let_def V2_def)

text \<open>
  C2. With the mutex free on entry, \<open>writeAll\<close> locks the channels mutex, sends the
  item on the write queue of every registered channel, then receives one completion
  token for each of these sends, and unlocks the mutex last: the mutex is held from
  before the first send until after the last token. It returns with every registered
  write queue extended by the item and as many tokens owed as on entry.
\<close>

theorem writeAll_fan_out:
  assumes "map_range_order rng" and "distinct (channels n)" and "\<not> channelsMutex n"
  shows "\<exists>n'. writeAll rng what n = Return n'
      \<and> (\<forall>c\<in>set (channels n). writeChan n' c = writeChan n c @ [what])
      \<and> (\<forall>c. c \<notin> set (channels n) \<longrightarrow> writeChan n' c = writeChan n c)
      \<and> trace n' = trace n @ [MutexLock] @ map (\<lambda>c. Send c what) (rng (channels n))
          @ replicate (length (channels n)) RecvWriteDone @ [MutexUnlock]
      \<and> set (rng (channels n)) = set (channels n)
      \<and> writeDone n' = writeDone n \<and> \<not> channelsMutex n' \<and> channels n' = channels n"
proof -
  note ro = range_order_facts [OF assms(1), of "channels n"]
  have d: "distinct (rng (channels n))" using ro(3) assms(2) by simp
  show ?thesis
    unfolding writeAll_eq [OF assms(3)]
    using assms(3) by (simp add: count_list_distinct [OF d] ro)
qed

theorem writeAll_fan_out_witness:
  "\<exists>n'. writeAll rev ''HEARTBEAT'' example_node = Return n'
      \<and> writeChan n' 1 = [''HEARTBEAT''] \<and> writeChan n' 2 = [''HEARTBEAT'']
      \<and> writeChan n' 0 = []
      \<and> trace n' = [MutexLock, Send 2 ''HEARTBEAT'', Send 1 ''HEARTBEAT'',
                     RecvWriteDone, RecvWriteDone, MutexUnlock]
      \<and> writeDone n' = 0"
  using writeAll_fan_out [of rev example_node "''HEARTBEAT''"]
  by (auto simp add: example_node_def map_range_order_def numeral_2_eq_2)

text \<open>
  C3. With the mutex free and the event stream open, \<open>Close\<close> calls \<open>close()\<close> on
  the heartbeat task (when there is one), then on every channel accepter, then, under
  the mutex, on every registered channel; it then starts the goroutine that drains
  the events, waits on the wait group, and as its last action closes the event stream,
  once.
\<close>

theorem Close_order:
  assumes "map_range_order rng" and "\<not> channelsMutex n" and "\<not> eventChanClosed n"
  shows "\<exists>n' ev. Close rng n = Return n' \<and> trace n' = trace n @ ev
      \<and> ev = (case nodeHeartbeat n of None \<Rightarrow> [] | Some h \<Rightarrow> [HeartbeatClose h])
          @ map AccepterClose (rng (channelAccepters n))
          @ [MutexLock] @ map ChannelClose (rng (channels n)) @ [MutexUnlock]
          @ [GoDrainEvents, WgWait, CloseEventChan]
      \<and> set (rng (channelAccepters n)) = set (channelAccepters n)
      \<and> set (rng (channels n)) = set (channels n)
      \<and> count_list ev CloseEventChan = 1
      \<and> eventChanClosed n' \<and> \<not> channelsMutex n'"
  using assms
  by (simp add: Close_def Let_def closeAccepters_eq closeChannels_eq Lock_def Unlock_def
      closeEventChan_def emit_def range_order_facts split: option.splits)

theorem Close_order_witness:
  "\<exists>n' ev. Close rev example_node = Return n' \<and> trace n' = ev
      \<and> ev = [HeartbeatClose 3, AccepterClose 0, MutexLock, ChannelClose 2,
                     ChannelClose 1, MutexUnlock, GoDrainEvents, WgWait, CloseEventChan]
      \<and> count_list ev CloseEventChan = 1
      \<and> eventChanClosed n'"
  using Close_order [of rev example_node]
  by (auto simp add: example_node_def map_range_order_def)

text \<open>
  C4. For a registered channel, with the mutex free on entry, \<open>writeTo\<close> sends the
  item on the write queue of that channel and of no other, receives one completion
  token, and returns with the mutex released.
\<close>

theorem writeTo_registered:
  assumes "channel \<in> set (channels n)" and "\<not> channelsMutex n"
  shows "\<exists>n'. writeTo channel what n = Return n'
      \<and> writeChan n' channel = writeChan n channel @ [what]
      \<and> (\<forall>c. c \<noteq> channel \<longrightarrow> writeChan n' c = writeChan n c)
      \<and> trace n' = trace n @ [MutexLock, Send channel what, RecvWriteDone, MutexUnlock]
      \<and> writeDone n' = writeDone n \<and> \<not> channelsMutex n' \<and> channels n' = channels n"
  using assms
  by (simp add: writeTo_def Lock_def Unlock_def send_def recvWriteDone_def emit_def)

theorem writeTo_registered_witness:
  "\<exists>n'. writeTo 2 ''HEARTBEAT'' example_node = Return n'
      \<and> writeChan n' 2 = [''HEARTBEAT''] \<and> writeChan n' 1 = []
      \<and> trace n' = [MutexLock, Send 2 ''HEARTBEAT'', RecvWriteDone, MutexUnlock]
      \<and> writeDone n' = 0"
  using writeTo_registered [of 2 example_node "''HEARTBEAT''"]
  by (auto simp add: example_node_def)

text \<open>
  C5. With the mutex free on entry, \<open>writeExcept\<close> sends the item on the write queue
  of every registered channel other than the excepted one, never on the excepted one,
  and receives one completion token for each send before it unlocks the mutex and
  returns.
\<close>

theorem writeExcept_fan_out:
  assumes "map_range_order rng" and "distinct (channels n)" and "\<not> channelsMutex n"
  shows "\<exists>n'. writeExcept rng exceptChannel what n = Return n'
      \<and> (\<forall>c\<in>set (channels n). c \<noteq> exceptChannel \<longrightarrow> writeChan n' c = writeChan n c @ [what])
      \<and> writeChan n' exceptChannel = writeChan n exceptChannel
      \<and> (\<forall>c. c \<notin> set (channels n) \<longrightarrow> writeChan n' c = writeChan n c)
      \<and> trace n' = trace n @ [MutexLock]
          @ map (\<lambda>c. Send c what) (filter (\<lambda>c. c \<noteq> exceptChannel) (rng (channels n)))
          @ replicate (length (filter (\<lambda>c. c \<noteq> exceptChannel) (channels n))) RecvWriteDone
          @ [MutexUnlock]
      \<and> set (rng (channels n)) = set (channels n)
      \<and> writeDone n' = writeDone n \<and> \<not> channelsMutex n' \<and> channels n' = channels n"
proof -
  note ro = range_order_facts [OF assms(1), of "channels n"]
  have d: "distinct (filter (\<lambda>c. c \<noteq> exceptChannel) (rng (channels n)))"
    using ro(3) assms(2) by simp
  have "mset (filter (\<lambda>c. c \<noteq> exceptChannel) (rng (channels n)))
        = mset (filter (\<lambda>c. c \<noteq> exceptChannel) (channels n))"
    using assms(1) by (simp add: map_range_order_def)
  then have l: "length (filter (\<lambda>c. c \<noteq> exceptChannel) (rng (channels n)))
        = length (filter (\<lambda>c. c \<noteq> exceptChannel) (channels n))"
    by (rule mset_eq_length)
  show ?thesis
    unfolding writeExcept_eq [OF assms(3)]
    using assms(3) by (simp add: count_list_distinct [OF d] ro l)
qed

theorem writeExcept_fan_out_witness:
  "\<exists>n'. writeExcept rev 2 ''HEARTBEAT'' example_node = Return n'
      \<and> writeChan n' 1 = [''HEARTBEAT''] \<and> writeChan n' 2 = []
      \<and> trace n' = [MutexLock, Send 1 ''HEARTBEAT'', RecvWriteDone, MutexUnlock]
      \<and> writeDone n' = 0"
  using writeExcept_fan_out [of rev example_node 2 "''HEARTBEAT''"]
  by (auto simp add: example_node_def map_range_order_def)

text \<open>
  C6. A node that \<open>NewNode\<close> returns stores the configuration with
  \<open>OutComponentId\<close> 0 replaced by 1, \<open>HeartbeatPeriod\<close> 0 replaced by 5 seconds
  and \<open>HeartbeatSystemType\<close> 0 replaced by 6; every other field is stored as given.
\<close>

theorem NewNode_defaults:
  assumes "NewNode rng c = Return (Ok n)"
  shows "OutComponentId (conf n) = (if OutComponentId c = 0 then 1 else OutComponentId c)
       \<and> HeartbeatPeriod (conf n) = (if HeartbeatPeriod c = 0 then 5 * Second else HeartbeatPeriod c)
       \<and> HeartbeatSystemType (conf n) = (if HeartbeatSystemType c = 0 then 6 else HeartbeatSystemType c)
       \<and> Endpoints (conf n) = Endpoints c \<and> Dialect (conf n) = Dialect c
       \<and> InSignatureKey (conf n) = InSignatureKey c \<and> OutVersion (conf n) = OutVersion c
       \<and> OutSystemId (conf n) = OutSystemId c \<and> OutSignatureKey (conf n) = OutSignatureKey c
       \<and> HeartbeatDisable (conf n) = HeartbeatDisable c"
  by (simp add: NewNode_Ok_conf [OF assms] word_less_1)

theorem NewNode_defaults_witness:
  "\<exists>n :: unit Node. NewNode id example_conf = Return (Ok n)
     \<and> OutComponentId (conf n) = 1 \<and> HeartbeatPeriod (conf n) = 5 * Second
     \<and> HeartbeatSystemType (conf n) = 6 \<and> OutSystemId (conf n) = 10
     \<and> Dialect (conf n) = Some (MkDialect True)"
proof -
  obtain n :: "unit Node" where n: "NewNode id example_conf = Return (Ok n)"
    using example_conf_node by blast
  from NewNode_defaults [OF n] have
    "OutComponentId (conf n) = 1 \<and> HeartbeatPeriod (conf n) = 5 * Second
     \<and> HeartbeatSystemType (conf n) = 6 \<and> OutSystemId (conf n) = 10
     \<and> Dialect (conf n) = Some (MkDialect True)"
    by (simp add: example_conf_def NodeConf_zero_def)
  with n show ?thesis by blast
qed

text \<open>
  C7. \<open>V2\<close> is the zero value of \<open>Version\<close>, so the zero value of \<open>NodeConf\<close>
  has \<open>OutVersion = V2\<close>, and a node built from a configuration that leaves
  \<open>OutVersion\<close> at its zero value stores \<open>V2\<close> as its outgoing version.
\<close>

theorem default_version_V2:
  "V2 = (0::Version) \<and> V1 \<noteq> V2 \<and> OutVersion NodeConf_zero = V2
   \<and> (\<forall>rng c. \<forall>n :: 'w Node. OutVersion c = OutVersion NodeConf_zero \<longrightarrow>
         NewNode rng c = Return (Ok n) \<longrightarrow> OutVersion (conf n) = V2)"
  by (auto simp add: V2_def V1_def NodeConf_zero_def dest!: NewNode_Ok_conf)

theorem default_version_V2_witness:
  "\<exists>n :: unit Node. NewNode id example_conf = Return (Ok n) \<and> OutVersion (conf n) = V2"
proof -
  obtain n :: "unit Node" where n: "NewNode id example_conf = Return (Ok n)"
    using example_conf_node by blast
  have "OutVersion example_conf = OutVersion NodeConf_zero"
    by (simp add: example_conf_def)
  with default_version_V2 [where ?'w = unit] n have "OutVersion (conf n) = V2" by blast
  with n show ?thesis by blast
qed

text \<open>
  C8. The constants of the network transports: a read buffer of 512 bytes, 10 seconds
  to connect, 60 seconds to read, 10 seconds to write and 2 seconds between
  reconnections, a second being \<open>10\<^sup>9\<close> nanoseconds.
\<close>

theorem net_constants:
  "netBufferSize = 512
   \<and> netConnectTimeout = 10 * Second \<and> netConnectTimeout = 10000000000
   \<and> netReadTimeout = 60 * Second \<and> netReadTimeout = 60000000000
   \<and> netWriteTimeout = 10 * Second \<and> netWriteTimeout = 10000000000
   \<and> netReconnectPeriod = 2 * Second \<and> netReconnectPeriod = 2000000000"
  by (simp add: netBufferSize_def netConnectTimeout_def netReadTimeout_def
      netWriteTimeout_def netReconnectPeriod_def Second_def Millisecond_def
      Microsecond_def Nanosecond_def)

text \<open>
  C9. For a channel that is not registered, \<open>writeTo\<close> locks and unlocks the mutex
  and does nothing else: nothing is sent on any write queue, no completion token is
  received, and every field of the node is as before.
\<close>

theorem writeTo_unregistered:
  assumes "channel \<notin> set (channels n)" and "\<not> channelsMutex n"
  shows "\<exists>n'. writeTo channel what n = Return n'
      \<and> n'\<lparr>trace := trace n\<rparr> = n
      \<and> trace n' = trace n @ [MutexLock, MutexUnlock]
      \<and> writeChan n' = writeChan n \<and> writeDone n' = writeDone n"
  using assms
  by (simp add: writeTo_def Lock_def Unlock_def emit_def)

theorem writeTo_unregistered_witness:
  "\<exists>n'. writeTo 7 ''HEARTBEAT'' example_node = Return n'
      \<and> n'\<lparr>trace := []\<rparr> = example_node
      \<and> trace n' = [MutexLock, MutexUnlock]
      \<and> writeChan n' 1 = [] \<and> writeChan n' 2 = [] \<and> writeChan n' 7 = []
      \<and> writeDone n' = 0"
  using writeTo_unregistered [of 7 example_node "''HEARTBEAT''"]
  by (auto simp add: example_node_def)

text \<open>
  C10. When the \<open>init()\<close> of an endpoint fails and the endpoints before it
  initialised, \<open>NewNode\<close> returns that error, and the log of the dropped node shows
  one object created for each earlier endpoint, \<open>close()\<close> called once on each
  channel and on each channel accepter created, and every call of \<open>close()\<close> after
  every creation.
\<close>

theorem NewNode_init_failure_closes_all:
  fixes c :: NodeConf
  assumes "map_range_order rng"
    and "\<not> OutSystemId c < 1" and "OutSignatureKey c = None \<or> OutVersion c = V2"
    and "Endpoints c = pre @ e # post"
    and "\<forall>e'\<in>set pre. \<exists>tp. init e' = Inr tp \<and> (isChannelAccepter tp \<or> isChannelSingle tp)"
    and "init e = Inl err"
  shows "\<exists>tr. (NewNode rng c :: 'w NewNode_result ret) = Return (Err err tr)
      \<and> length (created_channels tr) + length (created_accepters tr) = length pre
      \<and> mset (closed_channels tr) = mset (created_channels tr)
      \<and> mset (closed_accepters tr) = mset (created_accepters tr)
      \<and> (\<exists>tr1 tr2. tr = tr1 @ tr2
            \<and> closed_channels tr1 = [] \<and> closed_accepters tr1 = []
            \<and> created_channels tr2 = [] \<and> created_accepters tr2 = [])"
proof -
  let ?n0 = "\<lparr>conf = c\<lparr>OutComponentId := (if OutComponentId c < 1 then 1 else OutComponentId c),
                     HeartbeatPeriod := (if HeartbeatPeriod c = 0 then 5 * Second else HeartbeatPeriod c),
                     HeartbeatSystemType := (if HeartbeatSystemType c = 0 then 6 else HeartbeatSystemType c)\<rparr>,
           writeDone = 0, eventChanClosed = False, channelAccepters = [],
           channelsMutex = False, channels = [], nodeHeartbeat = None,
           writeChan = (\<lambda>_. []), heap_next = 0, trace = []\<rparr> :: 'w Node"
  have ne: "Endpoints c \<noteq> []" using assms(4) by simp
  have perm: "mset (rng xs) = mset xs" for xs
    using assms(1) by (simp add: map_range_order_def)
  have "\<exists>T n1. NewNode_endpoints rng (pre @ e # post) ?n0
             = Return (Inl (err, closeAccepters rng (closeChannels rng n1)))
           \<and> trace n1 = trace ?n0 @ T
           \<and> mset (channels n1) = mset (channels ?n0) + mset (created_channels T)
           \<and> mset (channelAccepters n1) = mset (channelAccepters ?n0) + mset (created_accepters T)
           \<and> closed_channels T = [] \<and> closed_accepters T = []
           \<and> length (created_channels T) + length (created_accepters T) = length pre"
    by (rule NewNode_endpoints_fail [OF _ _ _ assms(5,6)]) simp_all
  then obtain T n1 where
    r: "NewNode_endpoints rng (pre @ e # post) ?n0
          = Return (Inl (err, closeAccepters rng (closeChannels rng n1)))"
    and t: "trace n1 = T"
    and ch: "mset (channels n1) = mset (created_channels T)"
    and ac: "mset (channelAccepters n1) = mset (created_accepters T)"
    and z: "closed_channels T = []" "closed_accepters T = []"
    and l: "length (created_channels T) + length (created_accepters T) = length pre"
    by auto
  let ?tr2 = "map ChannelClose (rng (channels n1)) @ map AccepterClose (rng (channelAccepters n1))"
  have res: "(NewNode rng c :: 'w NewNode_result ret) = Return (Err err (T @ ?tr2))"
    unfolding NewNode_valid [OF assms(2) ne assms(3)] assms(4) r
    by (simp add: closeAccepters_eq closeChannels_eq t)
  have split: "\<exists>tr1 tr2. T @ ?tr2 = tr1 @ tr2
            \<and> closed_channels tr1 = [] \<and> closed_accepters tr1 = []
            \<and> created_channels tr2 = [] \<and> created_accepters tr2 = []"
    by (intro exI [of _ T] exI [of _ ?tr2]) (simp add: log_append z)
  have count: "length (created_channels (T @ ?tr2)) + length (created_accepters (T @ ?tr2))
               = length pre"
    by (simp add: log_append l)
  have cc: "mset (closed_channels (T @ ?tr2)) = mset (created_channels (T @ ?tr2))"
    by (simp add: log_append z perm ch)
  have ca: "mset (closed_accepters (T @ ?tr2)) = mset (created_accepters (T @ ?tr2))"
    by (simp add: log_append z perm ac)
  from res count cc ca split show ?thesis by blast
qed

theorem NewNode_init_failure_closes_all_witness:
  "\<exists>tr. (NewNode rev failing_conf :: unit NewNode_result ret)
            = Return (Err ''bind: address already in use'' tr)
      \<and> length (created_channels tr) + length (created_accepters tr) = 2
      \<and> mset (closed_channels tr) = mset (created_channels tr)
      \<and> mset (closed_accepters tr) = mset (created_accepters tr)
      \<and> (\<exists>tr1 tr2. tr = tr1 @ tr2
            \<and> closed_channels tr1 = [] \<and> closed_accepters tr1 = []
            \<and> created_channels tr2 = [] \<and> created_accepters tr2 = [])"
  using NewNode_init_failure_closes_all [where ?'w = unit and rng = rev and c = failing_conf
      and pre = "[MkEndpointConf (Inr (MkEndpoint True False ''tcp'')),
                  MkEndpointConf (Inr (MkEndpoint False True ''serial''))]"
      and e = "MkEndpointConf (Inl ''bind: address already in use'')"
      and post = "[MkEndpointConf (Inr (MkEndpoint False True ''serial2''))]"
      and err = "''bind: address already in use''"]
  by (simp add: map_range_order_def failing_conf_def NodeConf_zero_def numeral_2_eq_2)

end
